theory Spec2Isabelle
  imports Main "HOL-Library.Word" "HOL-Library.Sublist"
begin

section \<open>Python strings\<close>

text \<open>
  A Python \<open>str\<close> is a sequence of Unicode code points, and \<open>len\<close> counts code points.
  A code point is modelled as a natural number and a \<open>str\<close> as a list of them;
  \<open>lit\<close> turns a literal of the theory into such a string.
\<close>

type_synonym pystr = "nat list"

definition lit :: "string \<Rightarrow> pystr" where
  "lit s = map of_char s"

definition LF :: nat where "LF = 10"
definition CR :: nat where "CR = 13"

text \<open>
  \<open>str.isspace\<close> for one character, the set \<open>str.strip()\<close> removes: the ASCII
  whitespace table of CPython (\<open>0x09-0x0D\<close>, \<open>0x1C-0x1F\<close>, \<open>0x20\<close>) and the Unicode
  whitespace code points.
\<close>

definition is_space :: "nat \<Rightarrow> bool" where
  "is_space c \<longleftrightarrow>
     (9 \<le> c \<and> c \<le> 13) \<or> (28 \<le> c \<and> c \<le> 31) \<or> c = 32 \<or> c = 133 \<or> c = 160 \<or>
     c = 5760 \<or> (8192 \<le> c \<and> c \<le> 8202) \<or> c = 8232 \<or> c = 8233 \<or> c = 8239 \<or>
     c = 8287 \<or> c = 12288"

text \<open>
  The line boundaries of \<open>str.splitlines\<close>: \<open>\n\<close>, \<open>\v\<close>, \<open>\f\<close>, \<open>\r\<close>, \<open>\x1c\<close>,
  \<open>\x1d\<close>, \<open>\x1e\<close>, \<open>\x85\<close>, U+2028 and U+2029; \<open>\r\n\<close> counts as one boundary.
\<close>

definition is_linebreak :: "nat \<Rightarrow> bool" where
  "is_linebreak c \<longleftrightarrow>
     (10 \<le> c \<and> c \<le> 13) \<or> (28 \<le> c \<and> c \<le> 30) \<or> c = 133 \<or> c = 8232 \<or> c = 8233"

text \<open>
  \<open>str.splitlines()\<close> without \<open>keepends\<close>: the text up to the next line boundary is a
  line; nothing follows the last boundary, so a text that ends with one has no empty
  last line, and the empty text has no line at all.
\<close>

function splitlines :: "pystr \<Rightarrow> pystr list" where
  "splitlines s =
     (if s = [] then []
      else
        (let line = takeWhile (\<lambda>c. \<not> is_linebreak c) s;
             rest = dropWhile (\<lambda>c. \<not> is_linebreak c) s
         in case rest of
              [] \<Rightarrow> [line]
            | b # after \<Rightarrow>
                line # splitlines
                  (if b = CR \<and> take 1 after = [LF] then drop 1 after else after)))"
  by pat_completeness auto
termination
proof (relation "measure length")
  show "wf (measure length)" by simp
next
  fix s :: pystr and line rest :: pystr and b :: nat and after :: pystr
  assume "rest = dropWhile (\<lambda>c. \<not> is_linebreak c) s" and "rest = b # after"
  then have "length (b # after) \<le> length s"
    by (metis length_dropWhile_le)
  then have "length after < length s" and "length (drop 1 after) < length s"
    by simp_all
  then show "(if b = CR \<and> take 1 after = [LF] then drop 1 after else after, s) \<in> measure length"
    by simp
qed

declare splitlines.simps [simp del]

text \<open>\<open>str.strip()\<close> with no argument: whitespace is removed at both ends.\<close>

definition lstrip :: "pystr \<Rightarrow> pystr" where
  "lstrip s = dropWhile is_space s"

definition rstrip :: "pystr \<Rightarrow> pystr" where
  "rstrip s = rev (dropWhile is_space (rev s))"

definition strip :: "pystr \<Rightarrow> pystr" where
  "strip s = rstrip (lstrip s)"

text \<open>\<open>sep.join(parts)\<close>.\<close>

fun join :: "pystr \<Rightarrow> pystr list \<Rightarrow> pystr" where
  "join sep [] = []"
| "join sep [x] = x"
| "join sep (x # y # ys) = x @ sep @ join sep (y # ys)"

text \<open>The slice \<open>s[:k]\<close>: a negative \<open>k\<close> counts from the end.\<close>

definition slice_to :: "pystr \<Rightarrow> int \<Rightarrow> pystr" where
  "slice_to s k = (if 0 \<le> k then take (nat k) s else take (nat (int (length s) + k)) s)"

text \<open>\<open>str(n)\<close> for a non-negative integer: its decimal digits.\<close>

fun str_nat :: "nat \<Rightarrow> pystr" where
  "str_nat n = (if n < 10 then [48 + n] else str_nat (n div 10) @ [48 + n mod 10])"

declare str_nat.simps [simp del]

section \<open>The Normalizer\<close>

text \<open>
  \<^verbatim>\<open>
  def normalize_text(text: str) -> str:
      lines = [line.strip() for line in text.splitlines()]
      compact = "\n".join(line for line in lines if line)
      return compact
  \<close>
\<close>

definition normalize_text :: "pystr \<Rightarrow> pystr" where
  "normalize_text s =
     (let lines = map strip (splitlines s);
          compact = join [LF] (filter (\<lambda>line. line \<noteq> []) lines)
      in compact)"


section \<open>The Prompt Builder\<close>

record SourceContent =
  label :: pystr
  text' :: pystr

definition default_instruction :: pystr where
  "default_instruction =
     lit ''Summarize the following sources. Highlight key points and common themes.''"

definition delimiter :: pystr where
  "delimiter = lit ''\<newline>\<newline>---\<newline>\<newline>''"

text \<open>The f-string of one block: \<^verbatim>\<open>f"Source {idx}: {source.label}\n{source.text}"\<close>.\<close>

definition source_block :: "nat \<Rightarrow> SourceContent \<Rightarrow> pystr" where
  "source_block idx source =
     lit ''Source '' @ str_nat idx @ lit '': '' @ label source @ [LF] @ text' source"

text \<open>
  \<^verbatim>\<open>
  def build_prompt(query: str | None, sources: Sequence[SourceContent]) -> str:
      instruction = query or "Summarize the following sources. ..."
      context_parts = []
      for idx, source in enumerate(sources, start=1):
          context_parts.append(f"Source {idx}: {source.label}\n{source.text}")
      context = "\n\n---\n\n".join(context_parts)
      return f"{instruction}\n\nContext:\n{context}"
  \<close>
  \<open>query or default\<close> takes the default for \<open>None\<close> and for the empty string.
\<close>

definition build_prompt :: "pystr option \<Rightarrow> SourceContent list \<Rightarrow> pystr" where
  "build_prompt query sources =
     (let instruction =
            (case query of
               None \<Rightarrow> default_instruction
             | Some q \<Rightarrow> if q = [] then default_instruction else q);
          context_parts = map (\<lambda>(idx, source). source_block idx source) (enumerate 1 sources);
          context = join delimiter context_parts
      in instruction @ lit ''\<newline>\<newline>Context:\<newline>'' @ context)"

text \<open>
  The Prompt Builder in the words of the specification, for comparison: instruction,
  blank line, then the blocks joined by the delimiter.
\<close>

definition spec_build_prompt :: "pystr \<Rightarrow> SourceContent list \<Rightarrow> pystr" where
  "spec_build_prompt instruction sources =
     instruction @ lit ''\<newline>\<newline>'' @
     join delimiter (map (\<lambda>(idx, source). source_block idx source) (enumerate 1 sources))"

text \<open>\<open>pat\<close> occurs in \<open>s\<close> at offset \<open>p\<close>, and \<open>pat in s\<close>.\<close>

definition occurs_at :: "pystr \<Rightarrow> nat \<Rightarrow> pystr \<Rightarrow> bool" where
  "occurs_at pat p s \<longleftrightarrow> p + length pat \<le> length s \<and> take (length pat) (drop p s) = pat"

definition contains :: "pystr \<Rightarrow> pystr \<Rightarrow> bool" where
  "contains pat s \<longleftrightarrow> list_ex (\<lambda>p. occurs_at pat p s) [0..<Suc (length s)]"

text \<open>Where the block of the source with 0-based index \<open>i\<close> starts in the prompt.\<close>

definition block_offset :: "pystr option \<Rightarrow> SourceContent list \<Rightarrow> nat \<Rightarrow> nat" where
  "block_offset query sources i =
     length (build_prompt query []) +
     (\<Sum>k\<leftarrow>[0..<i]. length (source_block (Suc k) (sources ! k)) + length delimiter)"

section \<open>Exceptions and the world outside the program\<close>

text \<open>
  An exception is a value: its class and the message \<open>str(exc)\<close> gives. The classes the
  program raises itself are \<open>FileNotFoundError\<close>, \<open>ValueError\<close> and \<open>RuntimeError\<close>;
  \<open>UnicodeDecodeError\<close> and \<open>IndexError\<close> come from the operations modelled here, and
  \<open>LibraryError\<close> is any other exception of class \<open>Exception\<close> that a library call
  raises (\<open>OSError\<close>, an HTTP error, a parser error, an API error).
\<close>

datatype error =
    FileNotFoundError pystr
  | ValueError pystr
  | RuntimeError pystr
  | UnicodeDecodeError pystr
  | IndexError pystr
  | LibraryError pystr


type_synonym byte = "8 word"

text \<open>
  What the program reads from its surroundings and the libraries it calls, as parameters:
  the file system, the optional packages, the network and the model API. A path is
  the string \<open>str(path)\<close>.
\<close>

record world =
  resolve :: "pystr \<Rightarrow> error + pystr"
    \<comment> \<open>\<open>str(Path(raw).expanduser().resolve())\<close>; \<open>Inl\<close> is what \<open>expanduser\<close> or
       \<open>resolve\<close> raises (no home directory, a loop of symbolic links)\<close>
  path_exists :: "pystr \<Rightarrow> error + bool"
    \<comment> \<open>\<open>path.exists()\<close>; \<open>Inl\<close> is the \<open>OSError\<close> it lets through\<close>
  read_bytes :: "pystr \<Rightarrow> error + byte list"
    \<comment> \<open>opening and reading a file; \<open>Inl\<close> is the \<open>OSError\<close>\<close>
  decode_error_text :: "byte list \<Rightarrow> pystr"
    \<comment> \<open>the message of the \<open>UnicodeDecodeError\<close> for these bytes\<close>
  csv_reader :: "pystr \<Rightarrow> error + pystr list list"
    \<comment> \<open>the rows \<open>csv.reader\<close> yields from the file at this path, opened as UTF-8 text;
       \<open>Inl\<close> is the first exception of opening, reading, decoding or parsing it\<close>
  docx_available :: bool
  docx_paragraphs :: "pystr \<Rightarrow> error + pystr list"
    \<comment> \<open>\<open>paragraph.text\<close> of each paragraph of \<open>Document(path)\<close>\<close>
  pypdf2_available :: bool
  pdf_pages :: "pystr \<Rightarrow> error + pystr option list"
    \<comment> \<open>\<open>page.extract_text()\<close> of each page of \<open>PdfReader(path)\<close>\<close>
  requests_bs4_available :: bool
  http_get :: "pystr \<Rightarrow> error + pystr"
    \<comment> \<open>\<open>requests.get(url, timeout=30)\<close>, \<open>raise_for_status()\<close>, then \<open>response.text\<close>\<close>
  soup_text :: "pystr \<Rightarrow> error + pystr"
    \<comment> \<open>parse, drop \<open>script\<close>, \<open>style\<close>, \<open>noscript\<close>, then \<open>get_text(separator="\n")\<close>;
       \<open>Inl\<close> is the exception of the parser\<close>
  openai_available :: bool
  api_key :: "pystr option"
    \<comment> \<open>\<open>os.environ.get("OPENAI_API_KEY")\<close>\<close>
  openai_client :: "pystr \<Rightarrow> error option"
    \<comment> \<open>\<open>OpenAI(api_key=key)\<close>; \<open>Some\<close> is the exception the constructor raises\<close>
  chat_completion :: "pystr \<Rightarrow> pystr \<Rightarrow> pystr \<Rightarrow> error + pystr option option list"
    \<comment> \<open>key, model, prompt: the request; the answer is \<open>response.choices\<close>, each choice
       its \<open>message\<close> (or \<open>None\<close>) with its \<open>content\<close> (or \<open>None\<close>)\<close>
  write_text :: "pystr \<Rightarrow> pystr \<Rightarrow> error option"
    \<comment> \<open>\<open>path.write_text(text, encoding="utf-8")\<close>; \<open>Some\<close> is the exception\<close>
  print_stdout :: "pystr \<Rightarrow> error option"

section \<open>Decoding UTF-8\<close>

text \<open>
  The \<open>errors\<close> argument of \<open>read_text\<close>: the default \<open>strict\<close>, and \<open>ignore\<close>.
\<close>

datatype errors = Strict | Ignore

definition is_cont :: "nat \<Rightarrow> bool" where
  "is_cont b \<longleftrightarrow> 128 \<le> b \<and> b \<le> 191"

text \<open>
  The well-formed UTF-8 sequence at the head of the input, if there is one: its code
  point and its length. The second byte of a three- or four-byte sequence has a narrower
  range after \<open>E0\<close>, \<open>ED\<close>, \<open>F0\<close> and \<open>F4\<close> (no overlong form, no surrogate, nothing
  above U+10FFFF).
\<close>

definition utf8_seq :: "nat list \<Rightarrow> (nat \<times> nat) option" where
  "utf8_seq bs =
     (case bs of
        [] \<Rightarrow> None
      | b0 # r \<Rightarrow>
          if b0 < 128 then Some (b0, 1)
          else if 194 \<le> b0 \<and> b0 \<le> 223 then
            (case r of
               b1 # _ \<Rightarrow>
                 if is_cont b1 then Some ((b0 - 192) * 64 + (b1 - 128), 2) else None
             | _ \<Rightarrow> None)
          else if 224 \<le> b0 \<and> b0 \<le> 239 then
            (case r of
               b1 # b2 # _ \<Rightarrow>
                 if (if b0 = 224 then 160 else 128) \<le> b1 \<and>
                    b1 \<le> (if b0 = 237 then 159 else 191) \<and> is_cont b2
                 then Some ((b0 - 224) * 4096 + (b1 - 128) * 64 + (b2 - 128), 3)
                 else None
             | _ \<Rightarrow> None)
          else if 240 \<le> b0 \<and> b0 \<le> 244 then
            (case r of
               b1 # b2 # b3 # _ \<Rightarrow>
                 if (if b0 = 240 then 144 else 128) \<le> b1 \<and>
                    b1 \<le> (if b0 = 244 then 143 else 191) \<and> is_cont b2 \<and> is_cont b3
                 then Some ((b0 - 240) * 262144 + (b1 - 128) * 4096 + (b2 - 128) * 64
                            + (b3 - 128), 4)
                 else None
             | _ \<Rightarrow> None)
          else None)"

text \<open>
  \<open>bytes.decode("utf-8", errors)\<close>: \<open>None\<close> is the \<open>UnicodeDecodeError\<close> of \<open>strict\<close>.
  With \<open>ignore\<close> the decoder resumes after the bytes it could not decode. Here it
  resumes one byte further; the other bytes CPython skips with it are continuation
  bytes, which start no sequence and are skipped in their turn.
\<close>

function utf8_decode :: "errors \<Rightarrow> nat list \<Rightarrow> pystr option" where
  "utf8_decode mode [] = Some []"
| "utf8_decode mode (b # rest) =
     (case utf8_seq (b # rest) of
        Some (cp, n) \<Rightarrow>
          (case utf8_decode mode (drop (n - 1) rest) of
             None \<Rightarrow> None
           | Some s \<Rightarrow> Some (cp # s))
      | None \<Rightarrow>
          (case mode of
             Strict \<Rightarrow> None
           | Ignore \<Rightarrow> utf8_decode mode rest))"
  by pat_completeness auto
termination
  by (relation "measure (\<lambda>(mode, bs). length bs)") auto


text \<open>
  Text mode with the default \<open>newline=None\<close> reads \<open>\r\n\<close> and \<open>\r\<close> as \<open>\n\<close>.
\<close>

fun universal_newlines :: "pystr \<Rightarrow> pystr" where
  "universal_newlines [] = []"
| "universal_newlines [c] = (if c = CR then [LF] else [c])"
| "universal_newlines (c # d # cs) =
     (if c = CR \<and> d = LF then LF # universal_newlines cs
      else if c = CR then LF # universal_newlines (d # cs)
      else c # universal_newlines (d # cs))"

text \<open>\<open>path.read_text(encoding="utf-8", errors=...)\<close>.\<close>

definition read_text :: "world \<Rightarrow> errors \<Rightarrow> pystr \<Rightarrow> error + pystr" where
  "read_text w mode path =
     (case read_bytes w path of
        Inl e \<Rightarrow> Inl e
      | Inr bs \<Rightarrow>
          (case utf8_decode mode (map unat bs) of
             None \<Rightarrow> Inl (UnicodeDecodeError (decode_error_text w bs))
           | Some s \<Rightarrow> Inr (universal_newlines s)))"

section \<open>The Content Loader\<close>

text \<open>
  \<open>path.suffix\<close> (POSIX paths): the final component is what follows the last \<open>/\<close>;
  its suffix starts at its last dot, unless that dot is its first or its last character.
\<close>

definition path_name :: "pystr \<Rightarrow> pystr" where
  "path_name p = rev (takeWhile (\<lambda>c. c \<noteq> 47) (rev p))"

definition path_suffix :: "pystr \<Rightarrow> pystr" where
  "path_suffix p =
     (let name = path_name p;
          ext = rev (takeWhile (\<lambda>c. c \<noteq> 46) (rev name))
      in if 46 \<in> set name \<and> ext \<noteq> [] \<and> length ext + 1 < length name
         then 46 # ext else [])"

text \<open>
  \<open>str.lower()\<close>, exact wherever the result has an ASCII character: the letters \<open>A-Z\<close>,
  the Kelvin sign (to \<open>k\<close>) and the dotted capital I (to \<open>i\<close> and a combining dot).
  Any other character is left as it is: it is not ASCII and neither is its lower case,
  so the comparison with the suffixes below is the one Python makes.
\<close>

definition lower :: "pystr \<Rightarrow> pystr" where
  "lower s =
     concat (map (\<lambda>c. if 65 \<le> c \<and> c \<le> 90 then [c + 32]
                      else if c = 8490 then [107]
                      else if c = 304 then [105, 775]
                      else [c]) s)"

text \<open>
  \<^verbatim>\<open>
  def read_csv(path: Path) -> str:
      rows: List[str] = []
      with path.open("r", encoding="utf-8", newline="") as handle:
          reader = csv.reader(handle)
          for row in reader:
              rows.append(", ".join(cell.strip() for cell in row))
      return "\n".join(rows)
  \<close>
  The reader takes the file line by line, so what it raises first, of a decoding error
  and a parsing error, is the library's matter: the rows or that exception are the
  world's.
\<close>

definition read_csv :: "world \<Rightarrow> pystr \<Rightarrow> error + pystr" where
  "read_csv w path =
     (case csv_reader w path of
        Inl e \<Rightarrow> Inl e
      | Inr rows \<Rightarrow>
          (let rows' = map (\<lambda>row. join (lit '', '') (map strip row)) rows
           in Inr (join [LF] rows')))"

text \<open>
  \<^verbatim>\<open>
  def read_docx(path: Path) -> str:
      try:
          from docx import Document
      except ImportError as exc:
          raise RuntimeError("Reading DOCX files requires installing python-docx") from exc
      document = Document(path)
      paragraphs = [paragraph.text.strip() for paragraph in document.paragraphs
                    if paragraph.text.strip()]
      return "\n".join(paragraphs)
  \<close>
\<close>

definition read_docx :: "world \<Rightarrow> pystr \<Rightarrow> error + pystr" where
  "read_docx w path =
     (if \<not> docx_available w
      then Inl (RuntimeError (lit ''Reading DOCX files requires installing python-docx''))
      else
        (case docx_paragraphs w path of
           Inl e \<Rightarrow> Inl e
         | Inr ps \<Rightarrow>
             (let paragraphs = map strip (filter (\<lambda>p. strip p \<noteq> []) ps)
              in Inr (join [LF] paragraphs))))"

text \<open>
  \<^verbatim>\<open>
  def read_pdf(path: Path) -> str:
      try:
          from PyPDF2 import PdfReader
      except ImportError as exc:
          raise RuntimeError("Reading PDF files requires installing PyPDF2") from exc
      reader = PdfReader(path)
      pages = []
      for index, page in enumerate(reader.pages, start=1):
          text = page.extract_text() or ""
          if not text.strip():
              continue
          header = f"[Page {index}]"
          pages.append(f"{header}\n{text.strip()}")
      return "\n\n".join(pages)
  \<close>
\<close>

definition read_pdf :: "world \<Rightarrow> pystr \<Rightarrow> error + pystr" where
  "read_pdf w path =
     (if \<not> pypdf2_available w
      then Inl (RuntimeError (lit ''Reading PDF files requires installing PyPDF2''))
      else
        (case pdf_pages w path of
           Inl e \<Rightarrow> Inl e
         | Inr extracted \<Rightarrow>
             (let pages =
                    concat (map (\<lambda>(index, page).
                      (let t = (case page of None \<Rightarrow> [] | Some x \<Rightarrow> x)
                       in if strip t = [] then []
                          else
                            (let header = lit ''[Page '' @ str_nat index @ lit '']''
                             in [header @ [LF] @ strip t])))
                      (enumerate 1 extracted))
              in Inr (join [LF, LF] pages))))"

text \<open>
  \<^verbatim>\<open>
  def load_file(path: Path) -> str:
      suffix = path.suffix.lower()
      if suffix in {".txt", ".md", ".rst"}:
          return path.read_text(encoding="utf-8")
      if suffix == ".csv":
          return read_csv(path)
      if suffix in {".docx"}:
          return read_docx(path)
      if suffix in {".pdf"}:
          return read_pdf(path)
      # Fallback to binary-safe text read, ignoring errors.
      return path.read_text(encoding="utf-8", errors="ignore")
  \<close>
\<close>

definition load_file :: "world \<Rightarrow> pystr \<Rightarrow> error + pystr" where
  "load_file w path =
     (let suffix = lower (path_suffix path)
      in if suffix \<in> {lit ''.txt'', lit ''.md'', lit ''.rst''} then read_text w Strict path
         else if suffix = lit ''.csv'' then read_csv w path
         else if suffix \<in> {lit ''.docx''} then read_docx w path
         else if suffix \<in> {lit ''.pdf''} then read_pdf w path
         else read_text w Ignore path)"

text \<open>
  \<^verbatim>\<open>
  def load_url(url: str) -> str:
      try:
          import requests
          from bs4 import BeautifulSoup
      except ImportError as exc:
          missing = "requests and beautifulsoup4"
          raise RuntimeError(f"Fetching URLs requires installing {missing}") from exc
      response = requests.get(url, timeout=30)
      response.raise_for_status()
      soup = BeautifulSoup(response.text, "html.parser")
      for tag in soup(["script", "style", "noscript"]):
          tag.decompose()
      return soup.get_text(separator="\n")
  \<close>
\<close>

definition load_url :: "world \<Rightarrow> pystr \<Rightarrow> error + pystr" where
  "load_url w url =
     (if \<not> requests_bs4_available w
      then Inl (RuntimeError
                  (lit ''Fetching URLs requires installing requests and beautifulsoup4''))
      else
        (case http_get w url of
           Inl e \<Rightarrow> Inl e
         | Inr body \<Rightarrow> soup_text w body))"

text \<open>\<open>raw.startswith(("http://", "https://"))\<close>.\<close>

definition is_url :: "pystr \<Rightarrow> bool" where
  "is_url raw \<longleftrightarrow> take 7 raw = lit ''http://'' \<or> take 8 raw = lit ''https://''"

text \<open>
  The first half of the loop body of \<open>load_sources\<close>: the extracted text and the label.
  \<^verbatim>\<open>
        if raw.startswith(("http://", "https://")):
            text = load_url(raw)
            label = raw
        else:
            path = Path(raw).expanduser().resolve()
            if not path.exists():
                raise FileNotFoundError(f"Input not found: {raw}")
            text = load_file(path)
            label = str(path)
  \<close>
\<close>

definition read_source :: "world \<Rightarrow> pystr \<Rightarrow> error + pystr \<times> pystr" where
  "read_source w raw =
     (if is_url raw then
        (case load_url w raw of
           Inl e \<Rightarrow> Inl e
         | Inr t \<Rightarrow> Inr (t, raw))
      else
        (case resolve w raw of
           Inl e \<Rightarrow> Inl e
         | Inr path \<Rightarrow>
             (case path_exists w path of
                Inl e \<Rightarrow> Inl e
              | Inr found \<Rightarrow>
                  if \<not> found
                  then Inl (FileNotFoundError (lit ''Input not found: '' @ raw))
                  else
                    (case load_file w path of
                       Inl e \<Rightarrow> Inl e
                     | Inr t \<Rightarrow> Inr (t, path)))))"

text \<open>
  The second half: normalise, truncate, refuse an empty text.
  \<^verbatim>\<open>
        text = normalize_text(text)
        if max_chars and len(text) > max_chars:
            text = text[:max_chars]
        if not text.strip():
            raise ValueError(f"No textual content extracted from {raw}")
        sources.append(SourceContent(label=label, text=text))
  \<close>
\<close>

definition truncate_text :: "int \<Rightarrow> pystr \<Rightarrow> pystr" where
  "truncate_text max_chars t =
     (if max_chars \<noteq> 0 \<and> int (length t) > max_chars then slice_to t max_chars else t)"

definition no_text_error :: "pystr \<Rightarrow> error" where
  "no_text_error raw = ValueError (lit ''No textual content extracted from '' @ raw)"

fun load_sources_loop ::
  "world \<Rightarrow> int \<Rightarrow> pystr list \<Rightarrow> SourceContent list \<Rightarrow> error + SourceContent list" where
  "load_sources_loop w max_chars [] sources = Inr sources"
| "load_sources_loop w max_chars (raw # inputs) sources =
     (case read_source w raw of
        Inl e \<Rightarrow> Inl e
      | Inr (extracted, lbl) \<Rightarrow>
          (let t = truncate_text max_chars (normalize_text extracted)
           in if strip t = [] then Inl (no_text_error raw)
              else load_sources_loop w max_chars inputs
                     (sources @ [\<lparr>label = lbl, text' = t\<rparr>])))"

definition load_sources :: "world \<Rightarrow> pystr list \<Rightarrow> int \<Rightarrow> error + SourceContent list" where
  "load_sources w inputs max_chars = load_sources_loop w max_chars inputs []"

section \<open>The Model Client, the Output Writer and the top-level run\<close>

text \<open>
  What a run does to the outside, in the order it does it. The first two events are
  attempts, recorded when the constructor of the client and the request are called,
  whatever comes of them; the other three are writes that succeeded.
\<close>

datatype event =
    ClientConstruction pystr
  | RequestSent pystr pystr
  | FileWritten pystr pystr
  | StdoutPrinted pystr
  | StderrPrinted pystr

text \<open>
  \<^verbatim>\<open>
  def call_llm(prompt: str, model: str) -> str:
      try:
          from openai import OpenAI
      except ImportError as exc:
          raise RuntimeError("This tool requires the openai package. ...") from exc
      api_key = os.environ.get("OPENAI_API_KEY")
      if not api_key:
          raise RuntimeError("Set the OPENAI_API_KEY environment variable to use this tool.")
      client = OpenAI(api_key=api_key)
      response = client.chat.completions.create(model=model, messages=[...], temperature=0.2)
      choice = response.choices[0]
      content = choice.message.content if choice.message else ""
      if not content:
          raise RuntimeError("LLM returned an empty response.")
      return content.strip()
  \<close>
  The result comes with the events of the call. The request is the library's, with the
  fixed system message and temperature.
\<close>

definition missing_package_error :: error where
  "missing_package_error =
     RuntimeError
       (lit ''This tool requires the openai package. Install it with 'pip install openai'.'')"

definition missing_credential_error :: error where
  "missing_credential_error =
     RuntimeError (lit ''Set the OPENAI_API_KEY environment variable to use this tool.'')"

definition empty_reply_error :: error where
  "empty_reply_error = RuntimeError (lit ''LLM returned an empty response.'')"

definition call_llm :: "world \<Rightarrow> pystr \<Rightarrow> pystr \<Rightarrow> (error + pystr) \<times> event list" where
  "call_llm w prompt model =
     (if \<not> openai_available w then (Inl missing_package_error, [])
      else
        (case api_key w of
           None \<Rightarrow> (Inl missing_credential_error, [])
         | Some key \<Rightarrow>
             if key = [] then (Inl missing_credential_error, [])
             else
               (case openai_client w key of
                  Some e \<Rightarrow> (Inl e, [ClientConstruction key])
                | None \<Rightarrow>
                    (let events = [ClientConstruction key, RequestSent model prompt]
                     in case chat_completion w key model prompt of
                          Inl e \<Rightarrow> (Inl e, events)
                        | Inr choices \<Rightarrow>
                            (case choices of
                               [] \<Rightarrow>
                                 (Inl (IndexError (lit ''list index out of range'')), events)
                             | choice # _ \<Rightarrow>
                                 (let content =
                                        (case choice of None \<Rightarrow> Some [] | Some c \<Rightarrow> c)
                                  in case content of
                                       None \<Rightarrow> (Inl empty_reply_error, events)
                                     | Some c \<Rightarrow>
                                         if c = [] then (Inl empty_reply_error, events)
                                         else (Inr (strip c), events)))))))"





section \<open>A small world for concrete runs\<close>

text \<open>
  The working directory is \<open>/work\<close>. It holds \<open>notes.txt\<close> with the text
  \<open>Hello\n\nWorld\<close>, \<open>blank.txt\<close> with two spaces and a newline, and \<open>data.bin\<close> with
  the bytes \<open>61 FF 62\<close>. No optional package is installed and no key is set, unless
  a run says otherwise.
\<close>

definition ascii_bytes :: "string \<Rightarrow> byte list" where
  "ascii_bytes s = map of_char s"

definition example_files :: "(pystr \<times> byte list) list" where
  "example_files =
     [(lit ''/work/notes.txt'', ascii_bytes ''Hello\<newline>\<newline>World''),
      (lit ''/work/blank.txt'', ascii_bytes ''  \<newline>''),
      (lit ''/work/data.bin'', [0x61, 0xFF, 0x62])]"

definition example_world :: world where
  "example_world =
     \<lparr> resolve = (\<lambda>p. if take 1 p = lit ''/'' then Inr p else Inr (lit ''/work/'' @ p)),
       path_exists = (\<lambda>p. Inr (map_of example_files p \<noteq> None)),
       read_bytes = (\<lambda>p. case map_of example_files p of
                            None \<Rightarrow> Inl (LibraryError (lit ''No such file or directory''))
                          | Some bs \<Rightarrow> Inr bs),
       decode_error_text = (\<lambda>bs. lit ''invalid start byte''),
       csv_reader = (\<lambda>p. Inr []),
       docx_available = False,
       docx_paragraphs = (\<lambda>p. Inr []),
       pypdf2_available = False,
       pdf_pages = (\<lambda>p. Inr []),
       requests_bs4_available = False,
       http_get = (\<lambda>u. Inl (LibraryError (lit ''unreachable''))),
       soup_text = (\<lambda>s. Inr s),
       openai_available = False,
       api_key = None,
       openai_client = (\<lambda>k. None),
       chat_completion = (\<lambda>k m p. Inr [Some (Some (lit '' A summary. ''))]),
       write_text = (\<lambda>p t. Some (LibraryError (lit ''Permission denied''))),
       print_stdout = (\<lambda>t. None) \<rparr>"

section \<open>Views of a run used in the statements\<close>

text \<open>
  The text \<open>load_file\<close> or \<open>load_url\<close> returns for an input, and the text
  \<open>load_sources\<close> keeps of it; \<open>None\<close> where reading the input raises.
\<close>

definition extracted_text :: "world \<Rightarrow> pystr \<Rightarrow> pystr option" where
  "extracted_text w raw = (case read_source w raw of Inl e \<Rightarrow> None | Inr (t, l) \<Rightarrow> Some t)"

definition loaded_text :: "world \<Rightarrow> int \<Rightarrow> pystr \<Rightarrow> pystr option" where
  "loaded_text w max_chars raw =
     map_option (\<lambda>t. truncate_text max_chars (normalize_text t)) (extracted_text w raw)"



text \<open>Three sources with the labels \<open>A\<close>, \<open>B\<close> and \<open>C\<close>.\<close>

definition example_sources :: "SourceContent list" where
  "example_sources =
     [\<lparr>label = lit ''A'', text' = lit ''first''\<rparr>,
      \<lparr>label = lit ''B'', text' = lit ''second''\<rparr>,
      \<lparr>label = lit ''C'', text' = lit ''third''\<rparr>]"

text \<open>
  The \<open>SourceContent\<close> one pass of the loop of \<open>load_sources\<close> appends for an input;
  \<open>None\<close> where the pass raises.
\<close>

definition source_of :: "world \<Rightarrow> int \<Rightarrow> pystr \<Rightarrow> SourceContent option" where
  "source_of w max_chars raw =
     (case read_source w raw of
        Inl e \<Rightarrow> None
      | Inr (extracted, lbl) \<Rightarrow>
          (let t = truncate_text max_chars (normalize_text extracted)
           in if strip t = [] then None else Some \<lparr>label = lbl, text' = t\<rparr>))"




section \<open>Properties of the string operations\<close>

lemma is_linebreak_is_space: "is_linebreak c \<Longrightarrow> is_space c"
  by (auto simp: is_linebreak_def is_space_def)

lemma is_linebreak_LF: "is_linebreak LF"
  by (simp add: is_linebreak_def LF_def)

lemma splitlines_Nil: "splitlines [] = []"
  by (simp add: splitlines.simps)

lemma splitlines_no_linebreak:
  "l \<in> set (splitlines s) \<Longrightarrow> c \<in> set l \<Longrightarrow> \<not> is_linebreak c"
proof (induction s arbitrary: l rule: splitlines.induct)
  case (1 s)
  show ?case
  proof (cases "s = []")
    case True
    with "1.prems" show ?thesis by (simp add: splitlines_Nil)
  next
    case False
    let ?line = "takeWhile (\<lambda>c. \<not> is_linebreak c) s"
    let ?rest = "dropWhile (\<lambda>c. \<not> is_linebreak c) s"
    show ?thesis
    proof (cases ?rest)
      case Nil
      with False "1.prems" have "l = ?line"
        by (simp add: splitlines.simps [of s])
      with "1.prems" show ?thesis
        by (auto dest: set_takeWhileD)
    next
      case (Cons b after)
      let ?next = "if b = CR \<and> take 1 after = [LF] then drop 1 after else after"
      from False Cons have split: "splitlines s = ?line # splitlines ?next"
        by (simp add: splitlines.simps [of s])
      with "1.prems" consider "l = ?line" | "l \<in> set (splitlines ?next)"
        by auto
      then show ?thesis
      proof cases
        case 1
        with "1.prems" show ?thesis by (auto dest: set_takeWhileD)
      next
        case 2
        from "1.IH" [OF False refl refl Cons 2 "1.prems"(2)] show ?thesis .
      qed
    qed
  qed
qed

lemma splitlines_single:
  assumes "x \<noteq> []" and "\<forall>c\<in>set x. \<not> is_linebreak c"
  shows "splitlines x = [x]"
proof -
  from assms(2) have tw: "takeWhile (\<lambda>c. \<not> is_linebreak c) x = x"
    and dw: "dropWhile (\<lambda>c. \<not> is_linebreak c) x = []"
    by simp_all
  show ?thesis
    by (subst splitlines.simps) (simp only: tw dw Let_def assms(1) if_False list.case)
qed

lemma splitlines_line_LF:
  assumes "\<forall>c\<in>set x. \<not> is_linebreak c"
  shows "splitlines (x @ LF # rest) = x # splitlines rest"
proof -
  from assms have tw: "takeWhile (\<lambda>c. \<not> is_linebreak c) (x @ LF # rest) = x"
    and dw: "dropWhile (\<lambda>c. \<not> is_linebreak c) (x @ LF # rest) = LF # rest"
    by (simp_all add: takeWhile_append2 dropWhile_append2 is_linebreak_LF)
  have ne: "x @ LF # rest \<noteq> []" and lfcr: "LF \<noteq> CR"
    by (simp_all add: LF_def CR_def)
  show ?thesis
    by (subst splitlines.simps) (simp only: tw dw Let_def ne lfcr if_False list.case simp_thms)
qed

lemma splitlines_join:
  "\<forall>l\<in>set ls. l \<noteq> [] \<and> (\<forall>c\<in>set l. \<not> is_linebreak c) \<Longrightarrow> splitlines (join [LF] ls) = ls"
proof (induction "[LF]" ls rule: join.induct)
  case 1
  show ?case by (simp add: splitlines_Nil)
next
  case (2 x)
  then show ?case by (simp add: splitlines_single)
next
  case (3 x y ys)
  then show ?case by (simp add: splitlines_line_LF)
qed

lemma set_strip: "set (strip s) \<subseteq> set s"
proof -
  have "set (rstrip t) \<subseteq> set t" for t
    unfolding rstrip_def using set_dropWhileD [of _ is_space "rev t"] by auto
  moreover have "set (lstrip s) \<subseteq> set s"
    unfolding lstrip_def using set_dropWhileD [of _ is_space s] by auto
  ultimately show ?thesis
    unfolding strip_def by blast
qed

lemma rstrip_last: "rstrip s \<noteq> [] \<Longrightarrow> \<not> is_space (last (rstrip s))"
  unfolding rstrip_def by (simp add: last_rev hd_dropWhile)

lemma lstrip_hd: "lstrip s \<noteq> [] \<Longrightarrow> \<not> is_space (hd (lstrip s))"
  unfolding lstrip_def by (simp add: hd_dropWhile)

lemma rstrip_id: "s \<noteq> [] \<Longrightarrow> \<not> is_space (last s) \<Longrightarrow> rstrip s = s"
  unfolding rstrip_def by (cases s rule: rev_cases) simp_all

lemma lstrip_id: "s \<noteq> [] \<Longrightarrow> \<not> is_space (hd s) \<Longrightarrow> lstrip s = s"
  unfolding lstrip_def by (cases s) simp_all

lemma rstrip_hd: "rstrip s \<noteq> [] \<Longrightarrow> hd (rstrip s) = hd s"
proof (induction s rule: rev_induct)
  case Nil
  then show ?case by (simp add: rstrip_def)
next
  case (snoc x xs)
  show ?case
  proof (cases "is_space x")
    case True
    then have "rstrip (xs @ [x]) = rstrip xs" by (simp add: rstrip_def)
    with snoc show ?thesis by (cases xs) (auto simp: rstrip_def)
  next
    case False
    then have "rstrip (xs @ [x]) = xs @ [x]" by (simp add: rstrip_def)
    then show ?thesis by simp
  qed
qed

lemma strip_hd: "strip s \<noteq> [] \<Longrightarrow> \<not> is_space (hd (strip s))"
proof -
  assume ne: "strip s \<noteq> []"
  then have "rstrip (lstrip s) \<noteq> []" by (simp add: strip_def)
  then have "hd (strip s) = hd (lstrip s)" and "lstrip s \<noteq> []"
    by (auto simp: strip_def rstrip_hd) (simp add: rstrip_def)
  then show ?thesis by (simp add: lstrip_hd)
qed

lemma strip_last: "strip s \<noteq> [] \<Longrightarrow> \<not> is_space (last (strip s))"
  by (simp add: strip_def rstrip_last)

lemma strip_id: "s \<noteq> [] \<Longrightarrow> \<not> is_space (hd s) \<Longrightarrow> \<not> is_space (last s) \<Longrightarrow> strip s = s"
  by (simp add: strip_def lstrip_id rstrip_id)

lemma strip_strip: "strip (strip s) = strip s"
proof (cases "strip s = []")
  case True
  have "strip [] = []" by (simp add: strip_def lstrip_def rstrip_def)
  with True show ?thesis by simp
next
  case False
  then show ?thesis by (simp add: strip_id strip_hd strip_last)
qed

lemma strip_empty_iff: "strip s = [] \<longleftrightarrow> (\<forall>c\<in>set s. is_space c)"
proof
  assume e: "strip s = []"
  show "\<forall>c\<in>set s. is_space c"
  proof (rule ccontr)
    assume "\<not> (\<forall>c\<in>set s. is_space c)"
    then have ne: "lstrip s \<noteq> []"
      by (auto simp: lstrip_def)
    then have "\<not> is_space (hd (lstrip s))"
      by (rule lstrip_hd)
    with ne have "\<exists>c\<in>set (rev (lstrip s)). \<not> is_space c"
      by (cases "lstrip s") auto
    then have "dropWhile is_space (rev (lstrip s)) \<noteq> []"
      by (simp only: dropWhile_eq_Nil_conv) blast
    with e show False
      by (simp add: strip_def rstrip_def)
  qed
next
  assume "\<forall>c\<in>set s. is_space c"
  then have "lstrip s = []"
    by (simp add: lstrip_def)
  then show "strip s = []"
    by (simp add: strip_def rstrip_def)
qed

lemma stripped_lines:
  assumes "l \<in> set (filter (\<lambda>l. l \<noteq> []) (map strip (splitlines s)))"
  shows "l \<noteq> []" and "\<forall>c\<in>set l. \<not> is_linebreak c" and "strip l = l"
    and "\<not> is_space (hd l)"
proof -
  from assms obtain x where x: "x \<in> set (splitlines s)" and l: "l = strip x" and ne: "l \<noteq> []"
    by auto
  show "l \<noteq> []" by (rule ne)
  show "\<forall>c\<in>set l. \<not> is_linebreak c"
    using x l set_strip [of x] splitlines_no_linebreak [of x s] by blast
  show "strip l = l" by (simp add: l strip_strip)
  show "\<not> is_space (hd l)" using ne l strip_hd [of x] by simp
qed

lemma splitlines_normalize_text:
  "splitlines (normalize_text s) = filter (\<lambda>l. l \<noteq> []) (map strip (splitlines s))"
  unfolding normalize_text_def Let_def
  by (rule splitlines_join) (use stripped_lines in blast)

lemma hd_join: "ls \<noteq> [] \<Longrightarrow> hd ls \<noteq> [] \<Longrightarrow> hd (join sep ls) = hd (hd ls)"
  by (induction sep ls rule: join.induct) simp_all

lemma join_eq_Nil: "join sep ls = [] \<Longrightarrow> \<forall>l\<in>set ls. l \<noteq> [] \<Longrightarrow> ls = []"
  by (induction sep ls rule: join.induct) simp_all

lemma normalize_text_hd:
  assumes "normalize_text s \<noteq> []"
  shows "\<not> is_space (hd (normalize_text s))"
proof -
  let ?ls = "filter (\<lambda>l. l \<noteq> []) (map strip (splitlines s))"
  have n: "normalize_text s = join [LF] ?ls"
    by (simp add: normalize_text_def)
  with assms have ne: "?ls \<noteq> []"
    by auto
  then have "hd ?ls \<in> set ?ls"
    by (rule hd_in_set)
  then have h: "hd ?ls \<noteq> []" and sp: "\<not> is_space (hd (hd ?ls))"
    using stripped_lines [of "hd ?ls" s] by blast+
  from ne h have "hd (join [LF] ?ls) = hd (hd ?ls)"
    by (rule hd_join)
  with sp show ?thesis
    by (simp add: n)
qed

lemma strip_take_nonempty:
  assumes "t \<noteq> []" and "\<not> is_space (hd t)" and "0 < k"
  shows "strip (take k t) \<noteq> []"
proof -
  from assms have "hd t \<in> set (take k t)"
    by (cases t; cases k) simp_all
  with assms(2) show ?thesis
    by (auto simp: strip_empty_iff)
qed

section \<open>The Normalizer is idempotent and keeps the order of the lines\<close>

text \<open>
  Claim C5. The Normalizer is idempotent: normalising a normalised text gives the same
  text back. It does not reorder: the lines of its result are the lines of the input,
  each stripped, the empty ones left out, in the order of the input.
\<close>

theorem normalize_text_idempotent:
  "normalize_text (normalize_text s) = normalize_text s \<and>
   splitlines (normalize_text s) = filter (\<lambda>l. l \<noteq> []) (map strip (splitlines s))"
proof -
  let ?ls = "filter (\<lambda>l. l \<noteq> []) (map strip (splitlines s))"
  have lines: "splitlines (normalize_text s) = ?ls"
    by (rule splitlines_normalize_text)
  have "map strip ?ls = ?ls"
    by (rule map_idI) (use stripped_lines(3) in blast)
  moreover have "filter (\<lambda>l. l \<noteq> []) ?ls = ?ls"
    by simp
  ultimately have "normalize_text (normalize_text s) = join [LF] ?ls"
    by (simp add: normalize_text_def [of "normalize_text s"] lines)
  also have "\<dots> = normalize_text s"
    by (simp add: normalize_text_def)
  finally show ?thesis
    using lines by simp
qed

section \<open>The layout of the prompt\<close>

lemma map_enumerate_nth:
  "map (\<lambda>(idx, x). f idx x) (enumerate n xs) = map (\<lambda>i. f (n + i) (xs ! i)) [0..<length xs]"
  by (rule nth_equalityI) (simp_all add: nth_enumerate_eq)

lemma context_parts_nth:
  "map (\<lambda>(idx, source). source_block idx source) (enumerate 1 sources) =
   map (\<lambda>i. source_block (Suc i) (sources ! i)) [0..<length sources]"
  by (simp add: map_enumerate_nth)

lemma build_prompt_header:
  "build_prompt query sources =
   build_prompt query [] @
   join delimiter (map (\<lambda>i. source_block (Suc i) (sources ! i)) [0..<length sources])"
  unfolding build_prompt_def Let_def context_parts_nth
  by (simp split: option.splits)

lemma join_split_at:
  "i < length bs \<Longrightarrow>
   \<exists>rest. join d bs = concat (map (\<lambda>b. b @ d) (take i bs)) @ bs ! i @ rest"
proof (induction d bs arbitrary: i rule: join.induct)
  case (1 sep)
  then show ?case by simp
next
  case (2 sep x)
  then show ?case by simp
next
  case (3 sep x y ys)
  show ?case
  proof (cases i)
    case 0
    then show ?thesis by simp
  next
    case (Suc k)
    with "3.prems" have "k < length (y # ys)" by simp
    from "3.IH" [OF this] obtain rest where
      "join sep (y # ys) = concat (map (\<lambda>b. b @ sep) (take k (y # ys))) @ (y # ys) ! k @ rest"
      by blast
    with Suc show ?thesis by simp
  qed
qed

lemma take_as_map_nth: "i \<le> length xs \<Longrightarrow> take i xs = map (\<lambda>k. xs ! k) [0..<i]"
  by (rule nth_equalityI) simp_all

lemma length_blocks_before:
  assumes "i \<le> length bs"
  shows "length (concat (map (\<lambda>b. b @ d) (take i bs))) =
         (\<Sum>k\<leftarrow>[0..<i]. length (bs ! k) + length d)"
proof -
  have "map (\<lambda>b. length (b @ d)) (take i bs) = map (\<lambda>k. length (bs ! k) + length d) [0..<i]"
    by (subst take_as_map_nth [OF assms]) (simp add: comp_def)
  then show ?thesis
    by (simp add: length_concat comp_def)
qed

lemma occurs_at_middle:
  "occurs_at pat (length pre) (pre @ (pat @ post) @ rest)"
  by (simp add: occurs_at_def)

lemma block_offset_blocks:
  assumes "i < length sources"
  shows "block_offset query sources i =
         length (build_prompt query []) +
         length (concat (map (\<lambda>b. b @ delimiter)
           (take i (map (\<lambda>k. source_block (Suc k) (sources ! k)) [0..<length sources]))))"
proof -
  let ?bs = "map (\<lambda>k. source_block (Suc k) (sources ! k)) [0..<length sources]"
  from assms have le: "i \<le> length ?bs" by simp
  have "(\<Sum>k\<leftarrow>[0..<i]. length (?bs ! k) + length delimiter) =
        (\<Sum>k\<leftarrow>[0..<i]. length (source_block (Suc k) (sources ! k)) + length delimiter)"
    using assms by (intro arg_cong [where f = sum_list] map_cong) simp_all
  then show ?thesis
    unfolding block_offset_def length_blocks_before [OF le] by simp
qed

lemma block_at_offset:
  assumes "i < length sources"
  shows "occurs_at (lit ''Source '' @ str_nat (Suc i) @ lit '': '' @ label (sources ! i))
           (block_offset query sources i) (build_prompt query sources)"
proof -
  let ?bs = "map (\<lambda>k. source_block (Suc k) (sources ! k)) [0..<length sources]"
  let ?pre = "build_prompt query [] @ concat (map (\<lambda>b. b @ delimiter) (take i ?bs))"
  let ?pat = "lit ''Source '' @ str_nat (Suc i) @ lit '': '' @ label (sources ! i)"
  from assms have "i < length ?bs" by simp
  from join_split_at [OF this] obtain rest where
    j: "join delimiter ?bs = concat (map (\<lambda>b. b @ delimiter) (take i ?bs)) @ ?bs ! i @ rest"
    by blast
  from assms have "?bs ! i = ?pat @ ([LF] @ text' (sources ! i))"
    by (simp add: source_block_def)
  with j have "build_prompt query sources = ?pre @ (?pat @ ([LF] @ text' (sources ! i))) @ rest"
    by (simp only: build_prompt_header [of query sources] append_assoc)
  moreover have "block_offset query sources i = length ?pre"
    by (simp only: block_offset_blocks [OF assms] length_append)
  ultimately show ?thesis
    by (simp only: occurs_at_middle)
qed

lemma block_offset_mono:
  assumes "i < j"
  shows "block_offset query sources i < block_offset query sources j"
proof -
  let ?f = "\<lambda>k. length (source_block (Suc k) (sources ! k)) + length delimiter"
  from assms have "[0..<j] = [0..<i] @ i # [Suc i..<j]"
    by (metis less_imp_le_nat upt_add_eq_append upt_conv_Cons le_add_diff_inverse add_0 zero_le)
  then have "sum_list (map ?f [0..<j]) = sum_list (map ?f [0..<i]) + ?f i + sum_list (map ?f [Suc i..<j])"
    by simp
  moreover have "0 < length delimiter"
    by (simp add: delimiter_def lit_def)
  ultimately show ?thesis
    by (simp add: block_offset_def)
qed

text \<open>
  Claim C1, as amended. For every query and every sequence of sources, \<open>build_prompt\<close>
  returns the instruction, a blank line, the line \<open>Context:\<close>, and then the blocks
  \<open>Source {i}: {label}\n{text}\<close> in input order, numbered from 1 and joined by the
  delimiter \<open>\n\n---\n\n\<close>. The instruction is the query, or the fixed summarisation
  instruction when there is no query or the query is empty.
\<close>

theorem build_prompt_layout:
  "build_prompt query sources =
     (if query = None \<or> query = Some []
      then lit ''Summarize the following sources. Highlight key points and common themes.''
      else the query) @
     lit ''\<newline>\<newline>Context:\<newline>'' @
     join (lit ''\<newline>\<newline>---\<newline>\<newline>'')
       (map (\<lambda>i. lit ''Source '' @ str_nat (i + 1) @ lit '': '' @ label (sources ! i) @
                   lit ''\<newline>'' @ text' (sources ! i))
          [0..<length sources])"
proof -
  have "[LF] = lit ''\<newline>''"
    by (simp add: LF_def lit_def)
  then have "(\<lambda>i. source_block (Suc i) (sources ! i)) =
        (\<lambda>i. lit ''Source '' @ str_nat (i + 1) @ lit '': '' @ label (sources ! i) @
              lit ''\<newline>'' @ text' (sources ! i))"
    by (simp add: source_block_def fun_eq_iff)
  moreover have "build_prompt query sources =
      (if query = None \<or> query = Some []
       then lit ''Summarize the following sources. Highlight key points and common themes.''
       else the query) @
      lit ''\<newline>\<newline>Context:\<newline>'' @
      join delimiter (map (\<lambda>i. source_block (Suc i) (sources ! i)) [0..<length sources])"
    unfolding build_prompt_def Let_def context_parts_nth default_instruction_def
    by (cases query) simp_all
  ultimately show ?thesis
    by (simp only: delimiter_def)
qed

theorem build_prompt_layout_witness:
  "build_prompt (Some (lit ''Q''))
     [\<lparr>label = lit ''A'', text' = lit ''t''\<rparr>, \<lparr>label = lit ''B'', text' = lit ''u''\<rparr>] =
   lit ''Q\<newline>\<newline>Context:\<newline>Source 1: A\<newline>t\<newline>\<newline>---\<newline>\<newline>Source 2: B\<newline>u'' \<and>
   build_prompt None [\<lparr>label = lit ''A'', text' = lit ''t''\<rparr>] =
   lit ''Summarize the following sources. Highlight key points and common themes.'' @
   lit ''\<newline>\<newline>Context:\<newline>Source 1: A\<newline>t'' \<and>
   build_prompt (Some []) [] =
   lit ''Summarize the following sources. Highlight key points and common themes.'' @
   lit ''\<newline>\<newline>Context:\<newline>''"
proof -
  have ne: "lit ''Q'' \<noteq> []"
    by (simp add: lit_def)
  from ne build_prompt_layout [of "Some (lit ''Q'')"
      "[\<lparr>label = lit ''A'', text' = lit ''t''\<rparr>, \<lparr>label = lit ''B'', text' = lit ''u''\<rparr>]"]
  have "build_prompt (Some (lit ''Q''))
     [\<lparr>label = lit ''A'', text' = lit ''t''\<rparr>, \<lparr>label = lit ''B'', text' = lit ''u''\<rparr>] =
   lit ''Q\<newline>\<newline>Context:\<newline>Source 1: A\<newline>t\<newline>\<newline>---\<newline>\<newline>Source 2: B\<newline>u''"
    by (simp add: lit_def str_nat.simps upt_rec)
  moreover from build_prompt_layout [of None "[\<lparr>label = lit ''A'', text' = lit ''t''\<rparr>]"]
  have "build_prompt None [\<lparr>label = lit ''A'', text' = lit ''t''\<rparr>] =
   lit ''Summarize the following sources. Highlight key points and common themes.'' @
   lit ''\<newline>\<newline>Context:\<newline>Source 1: A\<newline>t''"
    by (simp add: lit_def str_nat.simps)
  moreover from build_prompt_layout [of "Some []" "[]"]
  have "build_prompt (Some []) [] =
   lit ''Summarize the following sources. Highlight key points and common themes.'' @
   lit ''\<newline>\<newline>Context:\<newline>''"
    by simp
  ultimately show ?thesis
    by blast
qed

text \<open>
  The claim as the specification words it fails: the code puts the line \<open>Context:\<close>
  between the blank line and the first block.
\<close>

theorem build_prompt_spec_counterexample:
  "build_prompt (Some (lit ''Q'')) [\<lparr>label = lit ''A'', text' = lit ''t''\<rparr>] \<noteq>
   spec_build_prompt (lit ''Q'') [\<lparr>label = lit ''A'', text' = lit ''t''\<rparr>]"
  by (simp add: build_prompt_def spec_build_prompt_def lit_def)

section \<open>The order of the sources in the prompt\<close>

text \<open>
  Claim C6. The blocks keep the order of the sources, with ordinals from 1: the text
  \<open>Source {i+1}: {label}\<close> of the source at index \<open>i\<close> stands in the prompt where
  its block starts, and the block of an earlier source starts strictly before the
  block of a later one.
\<close>

theorem build_prompt_order:
  assumes "i < j" and "j < length sources"
  shows "block_offset query sources i < block_offset query sources j \<and>
         occurs_at (lit ''Source '' @ str_nat (i + 1) @ lit '': '' @ label (sources ! i))
           (block_offset query sources i) (build_prompt query sources) \<and>
         occurs_at (lit ''Source '' @ str_nat (j + 1) @ lit '': '' @ label (sources ! j))
           (block_offset query sources j) (build_prompt query sources)"
proof -
  from assms have "i < length sources" by simp
  then show ?thesis
    using assms block_offset_mono [OF assms(1)] block_at_offset [of i sources query]
      block_at_offset [OF assms(2), of query]
    by simp
qed

theorem build_prompt_order_witness:
  "block_offset None example_sources 0 < block_offset None example_sources 1 \<and>
   block_offset None example_sources 1 < block_offset None example_sources 2 \<and>
   occurs_at (lit ''Source 1: A'') (block_offset None example_sources 0)
     (build_prompt None example_sources) \<and>
   occurs_at (lit ''Source 2: B'') (block_offset None example_sources 1)
     (build_prompt None example_sources) \<and>
   occurs_at (lit ''Source 3: C'') (block_offset None example_sources 2)
     (build_prompt None example_sources)"
proof -
  have len: "length example_sources = 3"
    and nth: "label (example_sources ! 0) = lit ''A''" "label (example_sources ! 1) = lit ''B''"
      "label (example_sources ! 2) = lit ''C''"
    by (simp_all add: example_sources_def)
  have s1: "lit ''Source '' @ str_nat (0 + 1) @ lit '': '' @ lit ''A'' = lit ''Source 1: A''"
    and s2: "lit ''Source '' @ str_nat (1 + 1) @ lit '': '' @ lit ''B'' = lit ''Source 2: B''"
    and s3: "lit ''Source '' @ str_nat (2 + 1) @ lit '': '' @ lit ''C'' = lit ''Source 3: C''"
    by (simp_all add: lit_def str_nat.simps)
  have "(0::nat) < 1" and "(1::nat) < 2" and "1 < length example_sources"
    and "2 < length example_sources"
    by (simp_all add: len)
  from build_prompt_order [OF this(1) this(3), of None]
    build_prompt_order [OF this(2) this(4), of None]
  show ?thesis
    by (simp only: nth s1 s2 s3)
qed

section \<open>The loop of the Content Loader\<close>

lemma loop_step_None:
  "source_of w mc raw = None \<Longrightarrow> \<exists>e. load_sources_loop w mc (raw # inputs) acc = Inl e"
  by (auto simp: source_of_def Let_def split: sum.splits prod.splits if_splits)

lemma loop_step_Some:
  "source_of w mc raw = Some s \<Longrightarrow>
   load_sources_loop w mc (raw # inputs) acc = load_sources_loop w mc inputs (acc @ [s])"
  by (auto simp: source_of_def Let_def split: sum.splits prod.splits if_splits)

lemma map_Some_no_None: "map Some xs \<noteq> ys @ None # zs"
proof
  assume "map Some xs = ys @ None # zs"
  then have "None \<in> set (map Some xs)" by simp
  then show False by auto
qed

lemma loop_char:
  "load_sources_loop w mc inputs acc = Inr srcs \<longleftrightarrow>
   map Some srcs = map Some acc @ map (source_of w mc) inputs"
proof (induction inputs arbitrary: acc)
  case Nil
  show ?case by (auto simp: inj_map_eq_map)
next
  case (Cons raw inputs)
  show ?case
  proof (cases "source_of w mc raw")
    case None
    from loop_step_None [OF this] obtain e where
      "load_sources_loop w mc (raw # inputs) acc = Inl e" by blast
    with None show ?thesis by (simp add: map_Some_no_None)
  next
    case (Some s)
    from loop_step_Some [OF this] Cons.IH [of "acc @ [s]"] Some
    show ?thesis by simp
  qed
qed

lemma load_sources_char:
  "load_sources w inputs mc = Inr srcs \<longleftrightarrow> map Some srcs = map (source_of w mc) inputs"
  by (simp add: load_sources_def loop_char)

lemma loop_append:
  "load_sources_loop w mc (xs @ ys) acc =
   (case load_sources_loop w mc xs acc of
      Inl e \<Rightarrow> Inl e
    | Inr a \<Rightarrow> load_sources_loop w mc ys a)"
proof (induction xs arbitrary: acc)
  case Nil
  show ?case by simp
next
  case (Cons raw xs)
  show ?case
  proof (cases "read_source w raw")
    case (Inl e)
    then show ?thesis by simp
  next
    case (Inr p)
    obtain x l where p: "p = (x, l)" by (cases p)
    show ?thesis
    proof (cases "strip (truncate_text mc (normalize_text x)) = []")
      case True
      with Inr p show ?thesis by simp
    next
      case False
      with Inr p Cons.IH show ?thesis by (simp add: Let_def)
    qed
  qed
qed

lemma source_of_label:
  "source_of w mc raw = Some s \<Longrightarrow>
   (if is_url raw then label s = raw else resolve w raw = Inr (label s))"
  by (auto simp: source_of_def read_source_def Let_def split: sum.splits prod.splits if_splits)

lemma source_of_text:
  "source_of w mc raw = Some s \<Longrightarrow> loaded_text w mc raw = Some (text' s) \<and> strip (text' s) \<noteq> []"
  by (auto simp: source_of_def loaded_text_def extracted_text_def Let_def
      split: sum.splits prod.splits if_splits)

lemma source_of_iff:
  "source_of w mc raw = None \<longleftrightarrow> (\<forall>t. loaded_text w mc raw = Some t \<longrightarrow> strip t = [])"
  by (auto simp: source_of_def loaded_text_def extracted_text_def Let_def
      split: sum.splits prod.splits if_splits)



lemma truncate_text_take: "0 < k \<Longrightarrow> truncate_text k t = take (nat k) t"
  by (simp add: truncate_text_def slice_to_def)

lemma sources_from_inputs:
  assumes "load_sources w inputs mc = Inr srcs"
  shows "length srcs = length inputs"
    and "\<And>i. i < length inputs \<Longrightarrow> source_of w mc (inputs ! i) = Some (srcs ! i)"
proof -
  from assms have m: "map Some srcs = map (source_of w mc) inputs"
    by (simp add: load_sources_char)
  then show len: "length srcs = length inputs"
    by (rule map_eq_imp_length_eq)
  fix i assume "i < length inputs"
  with len have "map Some srcs ! i = Some (srcs ! i)"
    and "map (source_of w mc) inputs ! i = source_of w mc (inputs ! i)"
    by simp_all
  with m show "source_of w mc (inputs ! i) = Some (srcs ! i)"
    by simp
qed

lemma source_in_sources:
  assumes "load_sources w inputs mc = Inr srcs" and "s \<in> set srcs"
  shows "\<exists>raw\<in>set inputs. source_of w mc raw = Some s"
proof -
  from assms(2) obtain i where i: "i < length srcs" and s: "srcs ! i = s"
    by (auto simp: in_set_conv_nth)
  with sources_from_inputs [OF assms(1)] have "i < length inputs"
    and "source_of w mc (inputs ! i) = Some s"
    by simp_all
  then show ?thesis
    by (metis nth_mem)
qed

lemma loop_no_text:
  assumes "loaded_text w mc raw = Some t" and "strip t = []"
  shows "load_sources_loop w mc (raw # post) acc = Inl (no_text_error raw)"
  using assms
  by (auto simp: loaded_text_def extracted_text_def Let_def split: sum.splits prod.splits)

lemma loop_all_loaded:
  assumes "\<forall>r\<in>set pre. \<exists>s. source_of w mc r = Some s"
  shows "\<exists>a. load_sources_loop w mc pre acc = Inr a"
  using assms
proof (induction pre arbitrary: acc)
  case Nil
  show ?case by simp
next
  case (Cons r pre)
  then obtain s where "source_of w mc r = Some s" by auto
  from loop_step_Some [OF this, of pre acc] Cons show ?case by simp
qed

lemma load_single:
  assumes "read_source w raw = Inr (x, l)"
    and "strip (truncate_text k (normalize_text x)) \<noteq> []"
  shows "load_sources w [raw] k = Inr [\<lparr>label = l, text' = truncate_text k (normalize_text x)\<rparr>]"
  using assms by (simp add: load_sources_def Let_def)

lemma occurs_at_contains:
  assumes "occurs_at pat p s"
  shows "contains pat s"
proof -
  from assms have "p \<in> set [0..<Suc (length s)]"
    by (auto simp: occurs_at_def)
  with assms show ?thesis
    unfolding contains_def list_ex_iff by blast
qed

section \<open>Runs in the small world\<close>

lemma utf8_decode_ascii: "\<forall>b\<in>set bs. b < 128 \<Longrightarrow> utf8_decode mode bs = Some bs"
  by (induction bs) (simp_all add: utf8_seq_def)

lemma universal_newlines_no_CR: "CR \<notin> set s \<Longrightarrow> universal_newlines s = s"
  by (induction s rule: universal_newlines.induct) auto

lemma ex_resolve:
  "resolve example_world (lit ''notes.txt'') = Inr (lit ''/work/notes.txt'')"
  "resolve example_world (lit ''blank.txt'') = Inr (lit ''/work/blank.txt'')"
  by (simp_all add: example_world_def lit_def)

lemma ex_not_url: "\<not> is_url (lit ''notes.txt'')" "\<not> is_url (lit ''blank.txt'')"
  by (simp_all add: is_url_def lit_def)

lemma ex_exists:
  "path_exists example_world (lit ''/work/notes.txt'') = Inr True"
  "path_exists example_world (lit ''/work/blank.txt'') = Inr True"
  by (simp_all add: example_world_def example_files_def lit_def)

lemma ex_read_bytes:
  "read_bytes example_world (lit ''/work/notes.txt'') =
     Inr (ascii_bytes ''Hello\<newline>\<newline>World'')"
  "read_bytes example_world (lit ''/work/blank.txt'') = Inr (ascii_bytes ''  \<newline>'')"
  "read_bytes example_world (lit ''/work/data.bin'') = Inr [0x61, 0xFF, 0x62]"
  by (simp_all add: example_world_def example_files_def lit_def)

lemma ex_bytes:
  "map unat (ascii_bytes ''Hello\<newline>\<newline>World'') = lit ''Hello\<newline>\<newline>World''"
  "map unat (ascii_bytes ''  \<newline>'') = lit ''  \<newline>''"
  by (simp_all add: ascii_bytes_def lit_def)

lemma ex_suffix:
  "lower (path_suffix (lit ''/work/notes.txt'')) = lit ''.txt''"
  "lower (path_suffix (lit ''/work/blank.txt'')) = lit ''.txt''"
  "lower (path_suffix (lit ''/work/data.bin'')) = lit ''.bin''"
  by (simp_all add: path_suffix_def path_name_def lower_def lit_def Let_def)

lemma ex_load_file:
  "load_file example_world (lit ''/work/notes.txt'') = Inr (lit ''Hello\<newline>\<newline>World'')"
  "load_file example_world (lit ''/work/blank.txt'') = Inr (lit ''  \<newline>'')"
proof -
  have "utf8_decode Strict (lit ''Hello\<newline>\<newline>World'') = Some (lit ''Hello\<newline>\<newline>World'')"
    and "utf8_decode Strict (lit ''  \<newline>'') = Some (lit ''  \<newline>'')"
    by (rule utf8_decode_ascii, simp add: lit_def)+
  moreover have "universal_newlines (lit ''Hello\<newline>\<newline>World'') = lit ''Hello\<newline>\<newline>World''"
    and "universal_newlines (lit ''  \<newline>'') = lit ''  \<newline>''"
    by (rule universal_newlines_no_CR, simp add: lit_def CR_def)+
  ultimately show
    "load_file example_world (lit ''/work/notes.txt'') = Inr (lit ''Hello\<newline>\<newline>World'')"
    "load_file example_world (lit ''/work/blank.txt'') = Inr (lit ''  \<newline>'')"
    by (simp_all add: load_file_def read_text_def ex_suffix ex_bytes ex_read_bytes)
qed

lemma ex_read_source:
  "read_source example_world (lit ''notes.txt'') =
     Inr (lit ''Hello\<newline>\<newline>World'', lit ''/work/notes.txt'')"
  "read_source example_world (lit ''blank.txt'') = Inr (lit ''  \<newline>'', lit ''/work/blank.txt'')"
  by (simp_all add: read_source_def ex_not_url ex_resolve ex_exists ex_load_file)

lemma ex_normalize:
  "normalize_text (lit ''Hello\<newline>\<newline>World'') = lit ''Hello\<newline>World''"
  "normalize_text (lit ''  \<newline>'') = []"
  by (simp_all add: normalize_text_def lit_def splitlines.simps strip_def lstrip_def rstrip_def
      is_space_def is_linebreak_def LF_def CR_def)

lemma ex_truncate:
  "truncate_text 100 (lit ''Hello\<newline>World'') = lit ''Hello\<newline>World''"
  "truncate_text 0 (lit ''Hello\<newline>World'') = lit ''Hello\<newline>World''"
  "truncate_text 5 (lit ''Hello\<newline>World'') = lit ''Hello''"
  "truncate_text k [] = []"
  by (simp_all add: truncate_text_def slice_to_def lit_def)

lemma ex_strip:
  "strip (lit ''Hello\<newline>World'') \<noteq> []" "strip (lit ''Hello'') \<noteq> []" "strip [] = []"
  by (simp_all add: strip_def lstrip_def rstrip_def lit_def is_space_def)

lemma ex_extracted:
  "extracted_text example_world (lit ''notes.txt'') = Some (lit ''Hello\<newline>\<newline>World'')"
  "extracted_text example_world (lit ''blank.txt'') = Some (lit ''  \<newline>'')"
  by (simp_all add: extracted_text_def ex_read_source)

lemma ex_loaded:
  "loaded_text example_world 100 (lit ''notes.txt'') = Some (lit ''Hello\<newline>World'')"
  "loaded_text example_world 100 (lit ''blank.txt'') = Some []"
  by (simp_all add: loaded_text_def ex_extracted ex_normalize ex_truncate)

lemma ex_load_notes:
  "load_sources example_world [lit ''notes.txt''] 100 =
     Inr [\<lparr>label = lit ''/work/notes.txt'', text' = lit ''Hello\<newline>World''\<rparr>]"
  "load_sources example_world [lit ''notes.txt''] 0 =
     Inr [\<lparr>label = lit ''/work/notes.txt'', text' = lit ''Hello\<newline>World''\<rparr>]"
  "load_sources example_world [lit ''notes.txt''] 5 =
     Inr [\<lparr>label = lit ''/work/notes.txt'', text' = lit ''Hello''\<rparr>]"
  using load_single [OF ex_read_source(1), of 100] load_single [OF ex_read_source(1), of 0]
    load_single [OF ex_read_source(1), of 5]
  by (simp_all add: ex_normalize ex_truncate ex_strip)

section \<open>No source is loaded with an empty text\<close>

text \<open>
  Claim C3. Every \<open>SourceContent\<close> that \<open>load_sources\<close> returns has a text with at
  least one character that is not whitespace, and there is one for every input: none
  is skipped. The first input whose text is empty or all whitespace after normalisation
  and truncation, the inputs before it having loaded, makes \<open>load_sources\<close> raise the
  \<open>ValueError\<close> "No textual content extracted from" that input.
\<close>

theorem load_sources_text_nonempty:
  "(\<forall>sources. load_sources w inputs mc = Inr sources \<longrightarrow>
      length sources = length inputs \<and> (\<forall>s\<in>set sources. \<exists>c\<in>set (text' s). \<not> is_space c)) \<and>
   (\<forall>pre raw post t.
      inputs = pre @ raw # post \<and>
      (\<forall>r\<in>set pre. \<exists>u. loaded_text w mc r = Some u \<and> strip u \<noteq> []) \<and>
      loaded_text w mc raw = Some t \<and> strip t = [] \<longrightarrow>
      load_sources w inputs mc = Inl (no_text_error raw))"
proof (intro conjI allI impI)
  fix sources assume l: "load_sources w inputs mc = Inr sources"
  then show "length sources = length inputs"
    by (rule sources_from_inputs)
  show "\<forall>s\<in>set sources. \<exists>c\<in>set (text' s). \<not> is_space c"
  proof
    fix s assume "s \<in> set sources"
    with l obtain raw where "source_of w mc raw = Some s"
      using source_in_sources by blast
    then have "strip (text' s) \<noteq> []"
      by (simp add: source_of_text)
    then show "\<exists>c\<in>set (text' s). \<not> is_space c"
      by (simp add: strip_empty_iff)
  qed
next
  fix pre raw post t
  assume a: "inputs = pre @ raw # post \<and>
      (\<forall>r\<in>set pre. \<exists>u. loaded_text w mc r = Some u \<and> strip u \<noteq> []) \<and>
      loaded_text w mc raw = Some t \<and> strip t = []"
  then have "\<forall>r\<in>set pre. \<exists>s. source_of w mc r = Some s"
    using source_of_iff [of w mc] by (metis not_Some_eq)
  from loop_all_loaded [OF this] obtain a' where "load_sources_loop w mc pre [] = Inr a'"
    by blast
  moreover from a have "loaded_text w mc raw = Some t" and "strip t = []"
    by simp_all
  then have "load_sources_loop w mc (raw # post) a' = Inl (no_text_error raw)"
    by (rule loop_no_text)
  ultimately show "load_sources w inputs mc = Inl (no_text_error raw)"
    using a by (simp add: load_sources_def loop_append)
qed

theorem load_sources_text_nonempty_witness:
  "load_sources example_world [lit ''notes.txt'', lit ''blank.txt''] 100 =
     Inl (no_text_error (lit ''blank.txt'')) \<and>
   (\<exists>c\<in>set (lit ''Hello\<newline>World''). \<not> is_space c)"
proof -
  note th = load_sources_text_nonempty
    [of example_world "[lit ''notes.txt'', lit ''blank.txt'']" 100]
  note th' = load_sources_text_nonempty [of example_world "[lit ''notes.txt'']" 100]
  have "load_sources example_world [lit ''notes.txt'', lit ''blank.txt''] 100 =
        Inl (no_text_error (lit ''blank.txt''))"
    by (rule th [THEN conjunct2, rule_format, of "[lit ''notes.txt'']" _ "[]" "[]"])
      (simp add: ex_loaded ex_strip)
  moreover from th' [THEN conjunct1, rule_format, OF ex_load_notes(1)]
  have "\<exists>c\<in>set (lit ''Hello\<newline>World''). \<not> is_space c"
    by simp
  ultimately show ?thesis ..
qed

section \<open>Truncation\<close>



text \<open>
  Claim C10. Truncation to \<open>max_chars > 0\<close> never empties a text: a normalised text
  that is not empty starts with a character that is not whitespace, and the truncated
  prefix keeps it. So, the inputs before it having loaded, \<open>load_sources\<close> raises "No
  textual content extracted" for an input exactly when its normalised text is empty.
\<close>

theorem truncation_keeps_text:
  assumes "0 < k" and "extracted_text w raw = Some t" and "load_sources w pre k = Inr sources"
  shows "(normalize_text t \<noteq> [] \<longrightarrow>
            \<not> is_space (hd (truncate_text k (normalize_text t))) \<and>
            strip (truncate_text k (normalize_text t)) \<noteq> []) \<and>
         (load_sources w (pre @ [raw]) k = Inl (no_text_error raw) \<longleftrightarrow> normalize_text t = [])"
proof -
  let ?n = "normalize_text t"
  have tr: "truncate_text k ?n = take (nat k) ?n"
    using assms(1) by (rule truncate_text_take)
  have keep: "\<not> is_space (hd (truncate_text k ?n)) \<and> strip (truncate_text k ?n) \<noteq> []"
    if ne: "?n \<noteq> []"
  proof -
    from ne have sp: "\<not> is_space (hd ?n)" by (rule normalize_text_hd)
    from assms(1) have pos: "0 < nat k" by simp
    then have "hd (take (nat k) ?n) = hd ?n"
      by (cases "nat k"; cases ?n) simp_all
    with sp strip_take_nonempty [OF ne sp pos] show ?thesis
      by (simp add: tr)
  qed
  from assms(2) obtain l where rs: "read_source w raw = Inr (t, l)"
    by (auto simp: extracted_text_def split: sum.splits prod.splits)
  from assms(3) have pre: "load_sources_loop w k pre [] = Inr sources"
    by (simp add: load_sources_def)
  have "load_sources w (pre @ [raw]) k = Inl (no_text_error raw) \<longleftrightarrow> ?n = []"
  proof (cases "?n = []")
    case True
    have "strip (truncate_text k ?n) = []"
      unfolding tr using True by (simp add: strip_def lstrip_def rstrip_def)
    with True rs pre show ?thesis
      by (simp add: load_sources_def loop_append)
  next
    case False
    with keep have "strip (truncate_text k ?n) \<noteq> []" by simp
    with False rs pre show ?thesis
      by (simp add: load_sources_def loop_append Let_def)
  qed
  with keep show ?thesis by blast
qed

theorem truncation_keeps_text_witness:
  "strip (truncate_text 5 (normalize_text (lit ''Hello\<newline>\<newline>World''))) \<noteq> [] \<and>
   load_sources example_world ([] @ [lit ''notes.txt'']) 5 \<noteq>
     Inl (no_text_error (lit ''notes.txt'')) \<and>
   load_sources example_world ([] @ [lit ''blank.txt'']) 5 =
     Inl (no_text_error (lit ''blank.txt''))"
proof -
  have k: "(0::int) < 5" by simp
  have e: "load_sources example_world [] 5 = Inr []"
    by (simp add: load_sources_def)
  have ne: "normalize_text (lit ''Hello\<newline>\<newline>World'') \<noteq> []"
    by (simp only: ex_normalize) (simp add: lit_def)
  from truncation_keeps_text [OF k ex_extracted(1) e] ne
  have "strip (truncate_text 5 (normalize_text (lit ''Hello\<newline>\<newline>World''))) \<noteq> []"
    and "load_sources example_world ([] @ [lit ''notes.txt'']) 5 \<noteq>
         Inl (no_text_error (lit ''notes.txt''))"
    by blast+
  moreover from truncation_keeps_text [OF k ex_extracted(2) e]
  have "load_sources example_world ([] @ [lit ''blank.txt'']) 5 =
        Inl (no_text_error (lit ''blank.txt''))"
    by (simp only: ex_normalize simp_thms)
  ultimately show ?thesis by blast
qed

section \<open>The label of a source\<close>

lemma single_source_prompt:
  "contains (lit ''Source 1: '' @ label s @ [LF] @ text' s) (build_prompt None [s])"
proof -
  have "build_prompt None [s] =
        build_prompt None [] @ ((lit ''Source 1: '' @ label s @ [LF] @ text' s) @ []) @ []"
    by (simp add: build_prompt_def source_block_def str_nat.simps lit_def)
  then have "occurs_at (lit ''Source 1: '' @ label s @ [LF] @ text' s)
      (length (build_prompt None [])) (build_prompt None [s])"
    by (simp only: occurs_at_middle)
  then show ?thesis
    by (rule occurs_at_contains)
qed

text \<open>
  Claim C2, as amended. The label of a source loaded from a URL is the URL as given;
  the label of a source loaded from a file is the resolved, absolute path of the input
  (\<open>str(Path(raw).expanduser().resolve())\<close>), not the string given on the command line.
  So for an input that resolves to a file with the text \<open>Hello\n\nWorld\<close>, the default
  query and \<open>max_chars = 100\<close>, the prompt contains \<open>Source 1: \<close>, the resolved path and
  then \<open>\nHello\nWorld\<close>.
\<close>

theorem load_sources_label:
  "(load_sources w inputs mc = Inr sources \<longrightarrow>
      list_all2 (\<lambda>raw s. if is_url raw then label s = raw else resolve w raw = Inr (label s))
        inputs sources) \<and>
   (\<not> is_url raw \<and> resolve w raw = Inr path \<and> path_exists w path = Inr True \<and>
    load_file w path = Inr (lit ''Hello\<newline>\<newline>World'') \<longrightarrow>
      load_sources w [raw] 100 = Inr [\<lparr>label = path, text' = lit ''Hello\<newline>World''\<rparr>] \<and>
      contains (lit ''Source 1: '' @ path @ lit ''\<newline>Hello\<newline>World'')
        (build_prompt None [\<lparr>label = path, text' = lit ''Hello\<newline>World''\<rparr>]))"
proof (intro conjI impI)
  assume l: "load_sources w inputs mc = Inr sources"
  show "list_all2 (\<lambda>raw s. if is_url raw then label s = raw else resolve w raw = Inr (label s))
        inputs sources"
  proof (rule list_all2_all_nthI)
    show "length inputs = length sources"
      using sources_from_inputs(1) [OF l] by simp
  next
    fix i assume "i < length inputs"
    with sources_from_inputs(2) [OF l] have "source_of w mc (inputs ! i) = Some (sources ! i)"
      by simp
    then show "if is_url (inputs ! i) then label (sources ! i) = inputs ! i
               else resolve w (inputs ! i) = Inr (label (sources ! i))"
      by (rule source_of_label)
  qed
next
  assume a: "\<not> is_url raw \<and> resolve w raw = Inr path \<and> path_exists w path = Inr True \<and>
    load_file w path = Inr (lit ''Hello\<newline>\<newline>World'')"
  then have rs: "read_source w raw = Inr (lit ''Hello\<newline>\<newline>World'', path)"
    by (simp add: read_source_def)
  from load_single [OF rs, of 100]
  show "load_sources w [raw] 100 = Inr [\<lparr>label = path, text' = lit ''Hello\<newline>World''\<rparr>]"
    by (simp add: ex_normalize ex_truncate ex_strip)
  have "lit ''\<newline>Hello\<newline>World'' = [LF] @ lit ''Hello\<newline>World''"
    by (simp add: lit_def LF_def)
  with single_source_prompt [of "\<lparr>label = path, text' = lit ''Hello\<newline>World''\<rparr>"]
  show "contains (lit ''Source 1: '' @ path @ lit ''\<newline>Hello\<newline>World'')
        (build_prompt None [\<lparr>label = path, text' = lit ''Hello\<newline>World''\<rparr>])"
    by simp
qed

theorem load_sources_label_witness:
  "label \<lparr>label = lit ''/work/notes.txt'', text' = lit ''Hello\<newline>World''\<rparr> =
     lit ''/work/notes.txt'' \<and>
   contains (lit ''Source 1: '' @ lit ''/work/notes.txt'' @ lit ''\<newline>Hello\<newline>World'')
     (build_prompt None [\<lparr>label = lit ''/work/notes.txt'', text' = lit ''Hello\<newline>World''\<rparr>])"
proof -
  note th = load_sources_label [of example_world "[lit ''notes.txt'']" 100
      "[\<lparr>label = lit ''/work/notes.txt'', text' = lit ''Hello\<newline>World''\<rparr>]"
      "lit ''notes.txt''" "lit ''/work/notes.txt''"]
  from th [THEN conjunct1, rule_format, OF ex_load_notes(1)]
  have "resolve example_world (lit ''notes.txt'') =
        Inr (label \<lparr>label = lit ''/work/notes.txt'', text' = lit ''Hello\<newline>World''\<rparr>)"
    by (simp add: ex_not_url)
  then have "label \<lparr>label = lit ''/work/notes.txt'', text' = lit ''Hello\<newline>World''\<rparr> =
     lit ''/work/notes.txt''"
    by (simp add: ex_resolve)
  moreover have "contains
     (lit ''Source 1: '' @ lit ''/work/notes.txt'' @ lit ''\<newline>Hello\<newline>World'')
     (build_prompt None [\<lparr>label = lit ''/work/notes.txt'', text' = lit ''Hello\<newline>World''\<rparr>])"
    by (rule th [THEN conjunct2, rule_format, THEN conjunct2])
      (simp add: ex_not_url ex_resolve ex_exists ex_load_file)
  ultimately show ?thesis ..
qed

text \<open>
  The claim as the specification words it fails: loaded from the working directory
  \<open>/work\<close>, the input \<open>notes.txt\<close> has the label \<open>/work/notes.txt\<close>, and the prompt
  does not contain \<open>Source 1: notes.txt\nHello\nWorld\<close>.
\<close>

theorem load_sources_label_counterexample:
  "load_sources example_world [lit ''notes.txt''] 100 =
     Inr [\<lparr>label = lit ''/work/notes.txt'', text' = lit ''Hello\<newline>World''\<rparr>] \<and>
   lit ''/work/notes.txt'' \<noteq> lit ''notes.txt'' \<and>
   \<not> contains (lit ''Source 1: notes.txt\<newline>Hello\<newline>World'')
     (build_prompt None [\<lparr>label = lit ''/work/notes.txt'', text' = lit ''Hello\<newline>World''\<rparr>])"
proof -
  have "\<not> contains (lit ''Source 1: notes.txt\<newline>Hello\<newline>World'')
     (build_prompt None [\<lparr>label = lit ''/work/notes.txt'', text' = lit ''Hello\<newline>World''\<rparr>])"
    by (simp add: contains_def occurs_at_def build_prompt_def default_instruction_def
        source_block_def str_nat.simps lit_def LF_def upt_rec)
  moreover have "lit ''/work/notes.txt'' \<noteq> lit ''notes.txt''"
    by (simp add: lit_def)
  ultimately show ?thesis
    using ex_load_notes(1) by blast
qed

section \<open>The fallback of the Content Loader drops undecodable bytes\<close>












section \<open>The Model Client without a credential\<close>

text \<open>
  Claim C8, as amended. If \<open>OPENAI_API_KEY\<close> is unset or empty, \<open>call_llm\<close> raises
  before it constructs a client or sends a request, for every prompt and model. What it
  raises is the missing-credential error when the \<open>openai\<close> package can be imported;
  when it cannot, the import guard comes first and raises the missing-package error.
\<close>

theorem call_llm_missing_credential:
  assumes "api_key w = None \<or> api_key w = Some []"
  shows "snd (call_llm w prompt model) = [] \<and>
         fst (call_llm w prompt model) =
           Inl (if openai_available w then missing_credential_error else missing_package_error)"
  using assms by (auto simp: call_llm_def)

theorem call_llm_missing_credential_witness:
  "call_llm (example_world \<lparr> openai_available := True \<rparr>) (lit ''p'') (lit ''gpt-4o-mini'') =
     (Inl missing_credential_error, []) \<and>
   call_llm (example_world \<lparr> openai_available := True, api_key := Some [] \<rparr>) (lit ''p'')
     (lit ''gpt-4o-mini'') = (Inl missing_credential_error, [])"
proof -
  have "api_key (example_world \<lparr> openai_available := True \<rparr>) = None \<or>
        api_key (example_world \<lparr> openai_available := True \<rparr>) = Some []"
    and "api_key (example_world \<lparr> openai_available := True, api_key := Some [] \<rparr>) = None \<or>
        api_key (example_world \<lparr> openai_available := True, api_key := Some [] \<rparr>) = Some []"
    by (simp_all add: example_world_def)
  from call_llm_missing_credential [OF this(1), of "lit ''p''" "lit ''gpt-4o-mini''"]
    call_llm_missing_credential [OF this(2), of "lit ''p''" "lit ''gpt-4o-mini''"]
  show ?thesis
    by (simp add: prod_eq_iff)
qed

text \<open>
  The claim as the specification words it fails where the package is not installed:
  with no key set, the error is the one of the import guard.
\<close>

theorem call_llm_missing_credential_counterexample:
  "api_key example_world = None \<and>
   call_llm example_world (lit ''p'') (lit ''gpt-4o-mini'') = (Inl missing_package_error, []) \<and>
   missing_package_error \<noteq> missing_credential_error"
  by (simp add: call_llm_def example_world_def missing_package_error_def
      missing_credential_error_def lit_def)

section \<open>The exit code of a run\<close>















end
